theory Spec2Isabelle
  imports Complex_Main "HOL-Library.Sublist"
begin

section \<open>Strings\<close>

text \<open>
  A Python \<open>str\<close> is modelled as a \<open>string\<close>: a list of 8-bit characters, each read as
  the code point of the same number (0..255). The builtins the program calls on strings
  (\<open>str.lower\<close>, \<open>str.strip\<close>, the class \<open>\s\<close> of \<open>re\<close>) are written out for that
  range; on it they agree with Python 3.
\<close>

definition isspace :: "char \<Rightarrow> bool" where
  \<comment> \<open>\<open>str.isspace\<close> on one character: TAB, LF, VT, FF, CR, FS, GS, RS, US, SPACE, NEL, NBSP.\<close>
  "isspace c = (of_char c \<in> {9, 10, 11, 12, 13, 28, 29, 30, 31, 32, 133, 160 :: nat})"

definition lower_char :: "char \<Rightarrow> char" where
  \<comment> \<open>\<open>A..Z\<close> and the Latin-1 capitals (0xC0..0xDE but the multiplication sign 0xD7)
      move up by 32; every other character stays.\<close>
  "lower_char c =
     (let n = (of_char c :: nat) in
      if (65 \<le> n \<and> n \<le> 90) \<or> (192 \<le> n \<and> n \<le> 222 \<and> n \<noteq> 215)
      then char_of (n + 32) else c)"

definition lower :: "string \<Rightarrow> string" where
  "lower s = map lower_char s"

definition strip :: "string \<Rightarrow> string" where
  "strip s = rev (dropWhile isspace (rev (dropWhile isspace s)))"

text \<open>
  \<open>EMAIL_REGEX = re.compile(r"^[^@\s]+@[^@\s]+\.[^@\s]+$")\<close>, used through \<open>match\<close>.
  The class \<open>[^@\s]\<close> is \<open>atom_char\<close>. The first \<open>[^@\s]+\<close> must take the whole
  leading run of such characters (what follows it has to be \<open>@\<close>); the rest is a run of
  such characters with a dot that is neither its first nor its last character, up to
  the end of the string, or up to one final newline (where \<open>$\<close> matches too).
\<close>

definition atom_char :: "char \<Rightarrow> bool" where
  "atom_char c = (c \<noteq> CHR ''@'' \<and> \<not> isspace c)"

definition domain_match :: "string \<Rightarrow> bool" where
  "domain_match d = (list_all atom_char d \<and> CHR ''.'' \<in> set (butlast (tl d)))"

definition EMAIL_REGEX_match :: "string \<Rightarrow> bool" where
  "EMAIL_REGEX_match s =
     (takeWhile atom_char s \<noteq> [] \<and>
      (case dropWhile atom_char s of
         [] \<Rightarrow> False
       | c # d \<Rightarrow> c = CHR ''@'' \<and>
           (domain_match d \<or> (d \<noteq> [] \<and> last d = CHR 0x0A \<and> domain_match (butlast d)))))"

text \<open>The decimal digits of a number, as \<open>str(n)\<close> and an f-string print it.\<close>

fun str_nat :: "nat \<Rightarrow> string" where
  "str_nat n =
     (if n < 10 then [char_of (48 + n)]
      else str_nat (n div 10) @ [char_of (48 + n mod 10)])"

declare str_nat.simps [simp del]

section \<open>Floats\<close>

text \<open>
  A Python \<open>float\<close> is a double: \<open>Finite x\<close> is the double of value \<open>x\<close> (\<open>0.0\<close> and
  \<open>-0.0\<close>, which compare equal, are both \<open>Finite 0\<close>), and there are the two
  infinities and NaN. \<open>float("inf")\<close> and \<open>float("nan")\<close> parse, so \<open>--rate\<close> and
  \<open>RATE_PER_MIN\<close> can hold any of them.
\<close>

datatype pyfloat = Finite real | PosInf | NegInf | NaN

section \<open>Records and the batch file\<close>

text \<open>
  What \<open>json.load\<close> returns. A \<open>dict\<close> is an association list in insertion order (its
  keys are distinct); a record of the batch is such a dict.
\<close>

datatype json =
    JNull
  | JBool bool
  | JInt int
  | JFloat pyfloat
  | JStr string
  | JArr "json list"
  | JObj "(string \<times> json) list"

type_synonym dict = "(string \<times> json) list"

datatype error =
    RuntimeError string
  | ValueError string
  | JSONDecodeError string
  | OSError string
  | TemplateError string
  | SMTPException string
  | OverflowError string
  | SystemExit int

fun str_error :: "error \<Rightarrow> string" where
  "str_error (RuntimeError m) = m"
| "str_error (ValueError m) = m"
| "str_error (JSONDecodeError m) = m"
| "str_error (OSError m) = m"
| "str_error (TemplateError m) = m"
| "str_error (SMTPException m) = m"
| "str_error (OverflowError m) = m"
| "str_error (SystemExit n) = (if n < 0 then ''-'' @ str_nat (nat (- n)) else str_nat (nat n))"

fun dicts_only :: "json list \<Rightarrow> dict list" where
  \<comment> \<open>\<open>[x for x in data if isinstance(x, dict)]\<close>\<close>
  "dicts_only [] = []"
| "dicts_only (JObj kvs # xs) = kvs # dicts_only xs"
| "dicts_only (_ # xs) = dicts_only xs"

fun first_list :: "dict \<Rightarrow> string list \<Rightarrow> json list option" where
  \<comment> \<open>The loop \<open>for key in (...): val = data.get(key); if isinstance(val, list): return ...\<close>:
      the list under the first of the keys that holds one.\<close>
  "first_list data [] = None"
| "first_list data (key # keys) =
     (case map_of data key of
        Some (JArr val) \<Rightarrow> Some val
      | _ \<Rightarrow> first_list data keys)"

definition unsupported_shape :: error where
  "unsupported_shape = ValueError
     ''Unsupported JSON shape: expected a list of objects or an object with 'items'/'results'/'data' list.''"

definition records_of :: "json \<Rightarrow> error + dict list" where
  \<comment> \<open>\<open>load_json_records\<close> from the value \<open>json.load\<close> returned on.\<close>
  "records_of data =
     (case data of
        JArr xs \<Rightarrow> Inr (dicts_only xs)
      | JObj kvs \<Rightarrow>
          (case first_list kvs [''items'', ''results'', ''data''] of
             Some val \<Rightarrow> Inr (dicts_only val)
           | None \<Rightarrow> Inl unsupported_shape)
      | _ \<Rightarrow> Inl unsupported_shape)"

definition load_json_records :: "(string \<Rightarrow> error + json) \<Rightarrow> string \<Rightarrow> error + dict list" where
  \<comment> \<open>\<open>read_json path\<close> is \<open>path.open\<close> followed by \<open>json.load\<close>: the parsed value, or
      the exception either of them raised.\<close>
  "load_json_records read_json path =
     (case read_json path of
        Inl e \<Rightarrow> Inl e
      | Inr data \<Rightarrow> records_of data)"

section \<open>Extraction, validation and de-duplication\<close>

definition EMAIL_KEY_ALIASES :: "string set" where
  "EMAIL_KEY_ALIASES = {''email'', ''e-mail'', ''mail''}"

fun find_email :: "dict \<Rightarrow> string option" where
  \<comment> \<open>The inner loop over \<open>rec.items()\<close>: the stripped value of the first field whose
      lowered key is an alias and whose value is a string that is not blank.\<close>
  "find_email [] = None"
| "find_email ((k, v) # items) =
     (case v of
        JStr s \<Rightarrow>
          if lower k \<in> EMAIL_KEY_ALIASES \<and> strip s \<noteq> [] then Some (strip s)
          else find_email items
      | _ \<Rightarrow> find_email items)"

text \<open>
  \<open>validate_email\<close> belongs to the library \<open>email_validator\<close>; it is a parameter here:
  \<open>validate email_val\<close> is \<open>Some\<close> of the field \<open>normalized\<close> of what
  \<open>validate_email(email_val, check_deliverability=False)\<close> returns, and \<open>None\<close> when it
  raises \<open>EmailNotValidError\<close>.
\<close>

type_synonym validator = "string \<Rightarrow> string option"

definition clean_email :: "validator \<Rightarrow> string \<Rightarrow> string option" where
  \<comment> \<open>The \<open>try\<close> block: the normalized address, or the candidate as it is when only
      the regular expression accepts it; \<open>None\<close> sends the record to \<open>missing\<close>.\<close>
  "clean_email validate email_val =
     (case validate email_val of
        Some normalized \<Rightarrow> Some normalized
      | None \<Rightarrow> if EMAIL_REGEX_match email_val then Some email_val else None)"

definition address_of :: "validator \<Rightarrow> dict \<Rightarrow> string option" where
  \<comment> \<open>The body of the first loop for one record: its cleaned address, or \<open>None\<close> when
      the record is appended to \<open>missing\<close>.\<close>
  "address_of validate rec =
     (case find_email rec of
        None \<Rightarrow> None
      | Some email_val \<Rightarrow> clean_email validate email_val)"

fun collect ::
  "validator \<Rightarrow> dict list \<Rightarrow> (string \<times> dict) list \<Rightarrow> dict list
     \<Rightarrow> (string \<times> dict) list \<times> dict list" where
  \<comment> \<open>The first loop of \<open>extract_emails\<close>, with its two lists \<open>found\<close> and \<open>missing\<close>.\<close>
  "collect validate [] found missing = (found, missing)"
| "collect validate (rec # records) found missing =
     (case address_of validate rec of
        None \<Rightarrow> collect validate records found (missing @ [rec])
      | Some email_clean \<Rightarrow>
          collect validate records (found @ [(email_clean, rec)]) missing)"

fun dedup_loop ::
  "(string \<times> dict) list \<Rightarrow> string set \<Rightarrow> (string \<times> dict) list
     \<Rightarrow> (string \<times> dict) list" where
  \<comment> \<open>The second loop, with the set \<open>seen\<close> and the list \<open>unique\<close>.\<close>
  "dedup_loop [] seen unique = unique"
| "dedup_loop ((email, rec) # found) seen unique =
     (if lower email \<in> seen then dedup_loop found seen unique
      else dedup_loop found (insert (lower email) seen) (unique @ [(email, rec)]))"

definition dedup :: "(string \<times> dict) list \<Rightarrow> (string \<times> dict) list" where
  "dedup found = dedup_loop found {} []"

definition extract_emails ::
  "validator \<Rightarrow> dict list \<Rightarrow> (string \<times> dict) list \<times> dict list" where
  "extract_emails validate records =
     (case collect validate records [] [] of
        (found, missing) \<Rightarrow> (dedup found, missing))"

section \<open>Configuration and messages\<close>

record Config =
  smtp_host :: string
  smtp_port :: int
  smtp_username :: string
  smtp_password :: string
  from_name :: string
  subject :: string
  template_path :: string
  reply_to :: "string option"
  rate_per_minute :: "pyfloat option"
  use_ssl :: bool

text \<open>
  An \<open>EmailMessage\<close> as \<open>make_message\<close> fills it. The headers \<open>Date\<close> and
  \<open>Message-ID\<close> come from the clock and the host and are left out; the plain-text
  part is what the converter of \<open>html2text\<close> (a parameter) returns, stripped.
  \<open>make_message\<close> is modelled where it returns: the package \<open>email\<close> raises
  \<open>ValueError\<close> for a header value that holds a carriage return or a line feed, which
  ends \<open>main\<close> before dispatch; that exception is not part of the model.
\<close>

record message =
  msg_subject :: string
  msg_from :: "string \<times> string"
  msg_to :: string
  msg_reply_to :: "string option"
  msg_plain :: string
  msg_html :: string

definition html_to_plaintext :: "(string \<Rightarrow> string) \<Rightarrow> string \<Rightarrow> string" where
  "html_to_plaintext handle html = strip (handle html)"

definition make_message ::
  "(string \<Rightarrow> string) \<Rightarrow> string \<Rightarrow> string \<Rightarrow> string \<Rightarrow> string \<Rightarrow> string
     \<Rightarrow> string option \<Rightarrow> message" where
  "make_message handle from_name' from_email to_email subject' html_body reply_to' =
     \<lparr> msg_subject = subject',
       msg_from = (from_name', from_email),
       msg_to = to_email,
       msg_reply_to = (case reply_to' of
                         Some r \<Rightarrow> if r \<noteq> [] then Some r else None
                       | None \<Rightarrow> None),
       msg_plain = html_to_plaintext handle html_body,
       msg_html = html_body \<rparr>"

section \<open>Dispatch\<close>

text \<open>
  What the program does to the outside, in order: lines printed, preview files written,
  the calls on the SMTP session, and the calls of \<open>time.sleep\<close> with the delay in
  seconds.
\<close>

datatype event =
    Print string
  | PrintErr string
  | Mkdir string
  | WriteText string string string
  | Connect bool string int
  | Ehlo
  | StartTLS
  | Login string string
  | SendMessage message
  | Sleep pyfloat
  | Quit

text \<open>
  The SMTP server is a parameter: for each call of \<open>smtplib\<close> the exception it raises,
  if any. \<open>smtp_send_message T i msg\<close> is the \<open>i\<close>-th call of \<open>server.send_message\<close>.
\<close>

record transport =
  smtp_connect :: "error option"
  smtp_ehlo :: "error option"
  smtp_starttls :: "error option"
  smtp_login :: "error option"
  smtp_send_message :: "nat \<Rightarrow> message \<Rightarrow> error option"

text \<open>
  So are the arithmetic of doubles and the clock. \<open>round_double P x\<close> is the double
  that the exact quotient \<open>x\<close> of two finite doubles is rounded to, \<open>PosInf\<close> when it
  overflows. \<open>time_sleep P d\<close> is the exception \<open>time.sleep(d)\<close> raises, if any
  (\<open>OverflowError\<close> for a delay that is too large, \<open>ValueError\<close> for a negative one
  or NaN).
\<close>

record platform =
  round_double :: "real \<Rightarrow> pyfloat"
  time_sleep :: "pyfloat \<Rightarrow> error option"

definition dry_run_line :: "nat \<Rightarrow> string" where
  "dry_run_line n =
     ''[DRY-RUN] Would send '' @ str_nat n @ '' message(s). No SMTP connection will be made.''"

definition ok_line :: "nat \<Rightarrow> nat \<Rightarrow> message \<Rightarrow> string" where
  "ok_line i n msg = ''[OK] '' @ str_nat i @ ''/'' @ str_nat n @ '' -> '' @ msg_to msg"

definition effective_rate :: "Config \<Rightarrow> pyfloat option \<Rightarrow> pyfloat option" where
  \<comment> \<open>\<open>rate_per_minute if rate_per_minute is not None else config.rate_per_minute\<close>\<close>
  "effective_rate config rate_arg =
     (case rate_arg of Some r \<Rightarrow> Some r | None \<Rightarrow> rate_per_minute config)"

definition delay_of :: "platform \<Rightarrow> pyfloat option \<Rightarrow> pyfloat" where
  \<comment> \<open>\<open>(60.0 / rate) if rate and rate > 0 else 0.0\<close>. A finite rate is truthy when it
      is not zero; the quotient of 60 by a finite positive rate is rounded; \<open>inf\<close> is
      truthy and positive, and \<open>60.0 / inf\<close> is \<open>0.0\<close>; \<open>-inf > 0\<close> and \<open>nan > 0\<close>
      are false.\<close>
  "delay_of P rate =
     (case rate of
        Some (Finite r) \<Rightarrow> if r \<noteq> 0 \<and> r > 0 then round_double P (60 / r) else Finite 0
      | Some PosInf \<Rightarrow> Finite 0
      | Some NegInf \<Rightarrow> Finite 0
      | Some NaN \<Rightarrow> Finite 0
      | None \<Rightarrow> Finite 0)"

fun send_loop ::
  "platform \<Rightarrow> transport \<Rightarrow> pyfloat \<Rightarrow> nat \<Rightarrow> nat \<Rightarrow> message list
     \<Rightarrow> event list \<times> (error + unit)" where
  \<comment> \<open>\<open>for i, msg in enumerate(messages, start=1)\<close>, from the index \<open>i\<close> on; \<open>n\<close> is
      \<open>len(messages)\<close>. \<open>if delay\<close> holds for every float but zero. An exception of
      \<open>send_message\<close> or of \<open>time.sleep\<close> ends the loop.\<close>
  "send_loop P T delay n i [] = ([], Inr ())"
| "send_loop P T delay n i (msg # msgs) =
     (case smtp_send_message T i msg of
        Some e \<Rightarrow> ([SendMessage msg], Inl e)
      | None \<Rightarrow>
          if delay \<noteq> Finite 0 \<and> i < n then
            (case time_sleep P delay of
               Some e \<Rightarrow> ([SendMessage msg, Print (ok_line i n msg), Sleep delay], Inl e)
             | None \<Rightarrow>
                 (case send_loop P T delay n (Suc i) msgs of
                    (evs, r) \<Rightarrow>
                      ([SendMessage msg, Print (ok_line i n msg), Sleep delay] @ evs, r)))
          else
            (case send_loop P T delay n (Suc i) msgs of
               (evs, r) \<Rightarrow> ([SendMessage msg, Print (ok_line i n msg)] @ evs, r)))"

definition logged_in ::
  "platform \<Rightarrow> transport \<Rightarrow> Config \<Rightarrow> pyfloat \<Rightarrow> message list
     \<Rightarrow> event list \<times> (error + unit)" where
  \<comment> \<open>Inside the \<open>with\<close> block from \<open>server.login\<close> on; the block's exit closes the
      session on every path.\<close>
  "logged_in P T config delay messages =
     (case smtp_login T of
        Some e \<Rightarrow> ([Login (smtp_username config) (smtp_password config), Quit], Inl e)
      | None \<Rightarrow>
          (case send_loop P T delay (length messages) 1 messages of
             (evs, r) \<Rightarrow>
               ([Login (smtp_username config) (smtp_password config)] @ evs @ [Quit], r)))"

definition send_messages ::
  "platform \<Rightarrow> transport \<Rightarrow> Config \<Rightarrow> message list \<Rightarrow> bool \<Rightarrow> pyfloat option
     \<Rightarrow> event list \<times> (error + unit)" where
  "send_messages P T config messages dry_run rate_arg =
     (if dry_run then ([Print (dry_run_line (length messages))], Inr ())
      else
        let rate = effective_rate config rate_arg;
            delay = delay_of P rate;
            open_session = Connect (use_ssl config) (smtp_host config) (smtp_port config)
        in
        case smtp_connect T of
          Some e \<Rightarrow> ([open_session], Inl e)
        | None \<Rightarrow>
            if use_ssl config then
              (case logged_in P T config delay messages of
                 (evs, r) \<Rightarrow> (open_session # evs, r))
            else
              (case smtp_ehlo T of
                 Some e \<Rightarrow> ([open_session, Ehlo, Quit], Inl e)
               | None \<Rightarrow>
                   (case smtp_starttls T of
                      Some e \<Rightarrow> ([open_session, Ehlo, StartTLS, Quit], Inl e)
                    | None \<Rightarrow>
                        (case logged_in P T config delay messages of
                           (evs, r) \<Rightarrow> (open_session # Ehlo # StartTLS # evs, r)))))"

section \<open>The command line\<close>

text \<open>
  The collaborators of a run: \<open>Config.from_env()\<close> (the configuration, or the exception
  it raised), the file system, the validator, the template engine (\<open>render_template\<close> on
  the template of the configuration and a context), the converter of \<open>html2text\<close>,
  the SMTP server, and the doubles and the clock of the platform.
\<close>

record world =
  from_env :: "error + Config"
  path_exists :: "string \<Rightarrow> bool"
  read_json :: "string \<Rightarrow> error + json"
  validate_email :: validator
  render_template :: "string \<Rightarrow> dict \<Rightarrow> error + string"
  html2text_handle :: "string \<Rightarrow> string"
  smtp :: transport
  runtime :: platform

text \<open>The namespace \<open>parse_args\<close> returns.\<close>

record cli_args =
  arg_test :: "string option"
  arg_list :: "string option"
  arg_subject :: "string option"
  arg_from_name :: "string option"
  arg_reply_to :: "string option"
  arg_rate :: "pyfloat option"
  arg_dry_run :: bool
  arg_save_previews :: "string option"
  arg_verbose :: bool

datatype outcome = Returned int | Raised error

definition nonempty :: "string option \<Rightarrow> string option" where
  \<comment> \<open>The string of an optional argument that is truthy: neither \<open>None\<close> nor empty.\<close>
  "nonempty a = (case a of Some s \<Rightarrow> if s \<noteq> [] then Some s else None | None \<Rightarrow> None)"

definition py_or :: "string option \<Rightarrow> string \<Rightarrow> string" where
  \<comment> \<open>\<open>a or b\<close>\<close>
  "py_or a b = (case nonempty a of Some s \<Rightarrow> s | None \<Rightarrow> b)"

definition py_or_opt :: "string option \<Rightarrow> string option \<Rightarrow> string option" where
  "py_or_opt a b = (case nonempty a of Some s \<Rightarrow> Some s | None \<Rightarrow> b)"

definition is_Exception :: "error \<Rightarrow> bool" where
  \<comment> \<open>What \<open>except Exception\<close> catches: \<open>SystemExit\<close> is not an \<open>Exception\<close>.\<close>
  "is_Exception e = (case e of SystemExit _ \<Rightarrow> False | _ \<Rightarrow> True)"

definition safe_char :: "char \<Rightarrow> bool" where
  \<comment> \<open>\<open>[A-Za-z0-9_.+-]\<close>\<close>
  "safe_char c =
     (let n = (of_char c :: nat) in
      (65 \<le> n \<and> n \<le> 90) \<or> (97 \<le> n \<and> n \<le> 122) \<or> (48 \<le> n \<and> n \<le> 57)
      \<or> c = CHR ''_'' \<or> c = CHR ''.'' \<or> c = CHR ''+'' \<or> c = CHR ''-'')"

function safe_name :: "string \<Rightarrow> string" where
  \<comment> \<open>\<open>re.sub(r'[^A-Za-z0-9_.+-]+', '_', email_addr)\<close>: every run of other characters
      becomes one underscore.\<close>
  "safe_name [] = []"
| "safe_name (c # cs) =
     (if safe_char c then c # safe_name cs
      else CHR ''_'' # safe_name (dropWhile (\<lambda>x. \<not> safe_char x) cs))"
  by pat_completeness auto
termination
  by (relation "measure length") (auto simp: le_imp_less_Suc length_dropWhile_le)

definition preview_events :: "string option \<Rightarrow> string \<Rightarrow> string \<Rightarrow> event list" where
  \<comment> \<open>\<open>if args.save_previews: outdir.mkdir(...); (outdir / name).write_text(html)\<close>\<close>
  "preview_events save_previews name html =
     (case nonempty save_previews of
        Some outdir \<Rightarrow> [Mkdir outdir, WriteText outdir name html]
      | None \<Rightarrow> [])"

fun render_all ::
  "world \<Rightarrow> Config \<Rightarrow> cli_args \<Rightarrow> (string \<times> dict) list \<Rightarrow> event list \<times> (error + message list)" where
  \<comment> \<open>The loop \<open>for email_addr, rec in pairs\<close> of \<open>main\<close>: the messages, or the
      exception of the first rendering that raised.\<close>
  "render_all W cfg args [] = ([], Inr [])"
| "render_all W cfg args ((email_addr, rec) # pairs) =
     (case render_template W (template_path cfg) rec of
        Inl e \<Rightarrow> ([], Inl e)
      | Inr html \<Rightarrow>
          (let evs = preview_events (arg_save_previews args)
                       (''preview_'' @ safe_name email_addr @ ''.html'') html;
               msg = make_message (html2text_handle W)
                       (py_or (arg_from_name args) (from_name cfg)) (smtp_username cfg) email_addr
                       (py_or (arg_subject args) (subject cfg)) html
                       (py_or_opt (arg_reply_to args) (reply_to cfg))
           in case render_all W cfg args pairs of
                (evs', Inl e) \<Rightarrow> (evs @ evs', Inl e)
              | (evs', Inr messages) \<Rightarrow> (evs @ evs', Inr (msg # messages))))"

definition test_context :: "string \<Rightarrow> dict" where
  "test_context email =
     [(''name'', JStr ''Test Recipient''), (''location'', JStr ''N/A''),
      (''county'', JStr ''N/A''), (''admin'', JStr ''N/A''), (''address'', JStr ''N/A''),
      (''phone'', JStr ''N/A''), (''email'', JStr email)]"

definition info_line :: "nat \<Rightarrow> nat \<Rightarrow> nat \<Rightarrow> string" where
  "info_line n_records n_pairs n_missing =
     ''[INFO] Loaded '' @ str_nat n_records @ '' record(s). '' @ str_nat n_pairs
       @ '' with emails, '' @ str_nat n_missing @ '' without or invalid.''"

definition summary_line :: "nat \<Rightarrow> nat \<Rightarrow> nat \<Rightarrow> string" where
  "summary_line n_records n_pairs n_missing =
     ''[SUMMARY] '' @ str_nat n_records @ '' total; '' @ str_nat n_pairs
       @ '' to send; '' @ str_nat n_missing @ '' skipped (no/invalid email).''"

definition send_all ::
  "world \<Rightarrow> Config \<Rightarrow> cli_args \<Rightarrow> event list \<Rightarrow> message list \<Rightarrow> event list \<times> outcome" where
  \<comment> \<open>The last block of \<open>main\<close>: \<open>send_messages\<close> under \<open>try\<close>, after the events
      \<open>evs\<close> of what came before.\<close>
  "send_all W cfg args evs messages =
     (case send_messages (runtime W) (smtp W) cfg messages (arg_dry_run args) (arg_rate args) of
        (sent, Inl e) \<Rightarrow>
          if is_Exception e
          then (evs @ sent @ [PrintErr (''[SEND ERROR] '' @ str_error e)], Returned 3)
          else (evs @ sent, Raised e)
      | (sent, Inr _) \<Rightarrow> (evs @ sent, Returned 0))"

definition main_test :: "world \<Rightarrow> Config \<Rightarrow> cli_args \<Rightarrow> string \<Rightarrow> event list \<times> outcome" where
  \<comment> \<open>The branch \<open>if args.test\<close>.\<close>
  "main_test W cfg args email =
     (case render_template W (template_path cfg) (test_context email) of
        Inl e \<Rightarrow> ([], Raised e)
      | Inr html \<Rightarrow>
          send_all W cfg args
            (preview_events (arg_save_previews args) ''preview_test.html'' html)
            [make_message (html2text_handle W)
               (py_or (arg_from_name args) (from_name cfg)) (smtp_username cfg) email
               (py_or (arg_subject args) (subject cfg)) html
               (py_or_opt (arg_reply_to args) (reply_to cfg))])"

definition main_list :: "world \<Rightarrow> Config \<Rightarrow> cli_args \<Rightarrow> string \<Rightarrow> event list \<times> outcome" where
  \<comment> \<open>The branch \<open>elif args.list\<close>.\<close>
  "main_list W cfg args json_path =
     (if \<not> path_exists W json_path
      then ([PrintErr (''[ERROR] JSON file not found: '' @ json_path)], Returned 2)
      else
        (case load_json_records (read_json W) json_path of
           Inl e \<Rightarrow> ([], Raised e)
         | Inr records \<Rightarrow>
             (case extract_emails (validate_email W) records of
                (pairs, missing) \<Rightarrow>
                  (let info =
                         (if arg_verbose args
                          then [Print (info_line (length records) (length pairs)
                                         (length missing))]
                          else [])
                   in case render_all W cfg args pairs of
                        (evs, Inl e) \<Rightarrow> (info @ evs, Raised e)
                      | (evs, Inr messages) \<Rightarrow>
                          send_all W cfg args
                            (info @ evs
                               @ [Print (summary_line (length records) (length pairs)
                                           (length missing))])
                            messages))))"

definition main :: "world \<Rightarrow> cli_args \<Rightarrow> event list \<times> outcome" where
  "main W args =
     (case from_env W of
        Inl e \<Rightarrow>
          if is_Exception e then ([PrintErr (''[CONFIG ERROR] '' @ str_error e)], Returned 2)
          else ([], Raised e)
      | Inr cfg \<Rightarrow>
          (case nonempty (arg_test args) of
             Some email \<Rightarrow> main_test W cfg args email
           | None \<Rightarrow>
               (case nonempty (arg_list args) of
                  Some json_path \<Rightarrow> main_list W cfg args json_path
                | None \<Rightarrow> ([], Raised (SystemExit 2)))))"

definition exit_status :: "outcome \<Rightarrow> int" where
  \<comment> \<open>\<open>raise SystemExit(main())\<close>: the status of the process; an exception that is
      not caught ends it with a traceback and status 1.\<close>
  "exit_status out =
     (case out of
        Returned n \<Rightarrow> n
      | Raised (SystemExit n) \<Rightarrow> n
      | Raised _ \<Rightarrow> 1)"

section \<open>Observations on a run\<close>

definition domain_part :: "string \<Rightarrow> string" where
  \<comment> \<open>What follows the \<open>@\<close> of an address.\<close>
  "domain_part s = tl (dropWhile (\<lambda>c. c \<noteq> CHR ''@'') s)"

definition is_session :: "event \<Rightarrow> bool" where
  \<comment> \<open>The calls on the SMTP session.\<close>
  "is_session ev =
     (case ev of
        Connect _ _ _ \<Rightarrow> True
      | Ehlo \<Rightarrow> True
      | StartTLS \<Rightarrow> True
      | Login _ _ \<Rightarrow> True
      | SendMessage _ \<Rightarrow> True
      | Quit \<Rightarrow> True
      | _ \<Rightarrow> False)"

definition pacing :: "event list \<Rightarrow> event list" where
  \<comment> \<open>The sends and the sleeps of a run, in the order they happen.\<close>
  "pacing evs =
     filter (\<lambda>ev. case ev of SendMessage _ \<Rightarrow> True | Sleep _ \<Rightarrow> True | _ \<Rightarrow> False) evs"

definition sleeps :: "event list \<Rightarrow> pyfloat list" where
  \<comment> \<open>The delays of a run, in seconds, in the order they happen.\<close>
  "sleeps evs = List.map_filter (\<lambda>ev. case ev of Sleep d \<Rightarrow> Some d | _ \<Rightarrow> None) evs"



section \<open>Example inputs\<close>

text \<open>The batch of the scenario: A and B share an address, C has none.\<close>

definition recA :: dict where
  "recA = [(''Name'', JStr ''A''), (''Email'', JStr ''a@a.com'')]"

definition recB :: dict where
  "recB = [(''Name'', JStr ''B''), (''mail'', JStr ''a@a.com'')]"

definition recC :: dict where
  "recC = [(''Name'', JStr ''C'')]"

definition scenario :: "dict list" where
  "scenario = [recA, recB, recC]"

definition rec_dots :: dict where
  "rec_dots = [(''Name'', JStr ''D''), (''email'', JStr ''john..doe@ACME.ORG'')]"

definition validate_examples :: validator where
  \<comment> \<open>What \<open>email_validator\<close> answers on the addresses of the examples: it accepts
      \<open>a@a.com\<close> and \<open>ann@x.org\<close> and returns them as they are, it accepts
      \<open>Ann@X.ORG\<close> and returns it with the domain in lowercase, and it refuses
      \<open>john..doe@ACME.ORG\<close> and \<open>JOHN..DOE@acme.org\<close> (two dots in a row) with an
      \<open>EmailSyntaxError\<close>, which is an \<open>EmailNotValidError\<close>. The examples pass it no
      other candidate.\<close>
  "validate_examples email_val =
     (if email_val = ''a@a.com'' then Some ''a@a.com''
      else if email_val = ''ann@x.org'' then Some ''ann@x.org''
      else if email_val = ''Ann@X.ORG'' then Some ''Ann@x.org''
      else None)"

definition mixed_case_batch :: "dict list" where
  \<comment> \<open>Four records with an address each: the third repeats the first and the fourth
      repeats the second, up to case.\<close>
  "mixed_case_batch =
     [[(''Name'', JStr ''Ann''), (''Email'', JStr ''Ann@X.ORG'')],
      rec_dots,
      [(''Name'', JStr ''Ann again''), (''e-mail'', JStr '' ann@x.org '')],
      [(''Name'', JStr ''John again''), (''mail'', JStr ''JOHN..DOE@acme.org'')]]"

definition example_pairs :: "(string \<times> dict) list" where
  "example_pairs = [(''Ann@x.org'', recA), (''bob@y.org'', recB), (''ANN@X.ORG'', recC)]"

definition wrapped_fields :: dict where
  \<comment> \<open>A wrapper object: \<open>items\<close> holds no list, \<open>data\<close> and \<open>results\<close> do.\<close>
  "wrapped_fields =
     [(''items'', JStr ''none''), (''data'', JArr [JObj recC]),
      (''results'', JArr [JObj recA, JInt 7])]"

definition items_first :: dict where
  \<comment> \<open>A wrapper object in which all three keys hold lists.\<close>
  "items_first =
     [(''data'', JArr [JObj recC]), (''items'', JArr [JObj recB, JStr ''x'']),
      (''results'', JArr [JObj recA])]"

definition data_last :: dict where
  \<comment> \<open>A wrapper object in which only \<open>data\<close> holds a list.\<close>
  "data_last = [(''items'', JNull), (''results'', JObj []), (''data'', JArr [JObj recC])]"

definition example_config :: Config where
  "example_config =
     \<lparr> smtp_host = ''smtp.gmail.com'', smtp_port = 465, smtp_username = ''sender@a.com'',
       smtp_password = ''secret'', from_name = ''Sender'', subject = ''Hello'',
       template_path = ''email-template.html'', reply_to = None,
       rate_per_minute = Some (Finite 30), use_ssl = True \<rparr>"

definition good_smtp :: transport where
  "good_smtp =
     \<lparr> smtp_connect = None, smtp_ehlo = None, smtp_starttls = None, smtp_login = None,
       smtp_send_message = (\<lambda>i msg. None) \<rparr>"

definition sleep_overflow :: error where
  "sleep_overflow = OverflowError ''timestamp too large to convert to C _PyTime_t''"

definition cpython :: platform where
  \<comment> \<open>The platform of the examples. Their quotients are doubles (60 by 30, 60 by
      \<open>2 ^ -30\<close>) and are not rounded. \<open>time.sleep\<close> is that of CPython 3 with a
      64-bit clock in nanoseconds: it refuses a negative delay or NaN with \<open>ValueError\<close>
      and a delay beyond \<open>2 ^ 63 - 1\<close> nanoseconds with \<open>OverflowError\<close>.\<close>
  "cpython =
     \<lparr> round_double = Finite,
       time_sleep =
         (\<lambda>d. case d of
                Finite x \<Rightarrow>
                  if x < 0 then Some (ValueError ''sleep length must be non-negative'')
                  else if x * 1000000000 > 9223372036854775807 then Some sleep_overflow
                  else None
              | PosInf \<Rightarrow> Some sleep_overflow
              | NegInf \<Rightarrow> Some (ValueError ''sleep length must be non-negative'')
              | NaN \<Rightarrow> Some (ValueError ''Invalid value NaN (not a number)'')) \<rparr>"

definition example_message :: "string \<Rightarrow> message" where
  "example_message addr =
     make_message (\<lambda>html. ''Hello'') ''Sender'' ''sender@a.com'' addr ''Hello''
       ''<p>Hello</p>'' None"

definition three_messages :: "message list" where
  "three_messages =
     [example_message ''a@a.com'', example_message ''b@b.org'', example_message ''c@c.net'']"

definition example_world :: "json \<Rightarrow> world" where
  \<comment> \<open>A run whose batch file parses to the given value, with a template that renders
      for every context.\<close>
  "example_world data =
     \<lparr> from_env = Inr example_config, path_exists = (\<lambda>path. True),
       read_json = (\<lambda>path. Inr data), validate_email = validate_examples,
       render_template = (\<lambda>template context. Inr ''<p>Hello</p>''),
       html2text_handle = (\<lambda>html. ''Hello''), smtp = good_smtp, runtime = cpython \<rparr>"

definition broken_template_world :: "json \<Rightarrow> world" where
  \<comment> \<open>The same run with a template that raises for every context.\<close>
  "broken_template_world data =
     (example_world data)
       \<lparr> render_template := (\<lambda>template context. Inl (TemplateError ''undefined variable'')) \<rparr>"

definition list_args :: cli_args where
  \<comment> \<open>\<open>--list contacts.json\<close>\<close>
  "list_args =
     \<lparr> arg_test = None, arg_list = Some ''contacts.json'', arg_subject = None,
       arg_from_name = None, arg_reply_to = None, arg_rate = None, arg_dry_run = False,
       arg_save_previews = None, arg_verbose = False \<rparr>"

definition test_args :: cli_args where
  \<comment> \<open>\<open>--test someone@b.org\<close>\<close>
  "test_args = list_args \<lparr> arg_test := Some ''someone@b.org'', arg_list := None \<rparr>"


definition dry_run_args :: cli_args where
  \<comment> \<open>\<open>--list contacts.json --dry-run\<close>\<close>
  "dry_run_args = list_args \<lparr> arg_dry_run := True \<rparr>"

section \<open>The regular expression\<close>

text \<open>
  \<open>EMAIL_REGEX_match\<close> accepts exactly the strings the pattern describes: three
  non-empty runs of characters that are neither \<open>@\<close> nor whitespace, with \<open>@\<close> after
  the first and a dot after the second, up to the end or to one final newline.
\<close>

lemma atom_dot: "atom_char CHR ''.''"
  by (simp add: atom_char_def isspace_def)

lemma not_atom_at: "\<not> atom_char CHR ''@''"
  by (simp add: atom_char_def)

lemma not_atom_nl: "\<not> atom_char (CHR 0x0A)"
  by (simp add: atom_char_def isspace_def)

lemma domain_match_iff:
  "domain_match d \<longleftrightarrow>
     (\<exists>a b. a \<noteq> [] \<and> b \<noteq> [] \<and> list_all atom_char a \<and> list_all atom_char b
            \<and> d = a @ ''.'' @ b)"
proof
  assume dm: "domain_match d"
  then have all: "list_all atom_char d" and dot: "CHR ''.'' \<in> set (butlast (tl d))"
    by (simp_all add: domain_match_def)
  from dot obtain xs ys where split: "butlast (tl d) = xs @ CHR ''.'' # ys"
    by (auto dest: split_list)
  then have ne: "tl d \<noteq> []" by auto
  then have d_ne: "d \<noteq> []" by auto
  have "tl d = butlast (tl d) @ [last (tl d)]" using ne by simp
  with split have tl: "tl d = xs @ CHR ''.'' # ys @ [last (tl d)]" by simp
  have "d = hd d # tl d" using d_ne by simp
  with tl have d: "d = (hd d # xs) @ ''.'' @ (ys @ [last (tl d)])" by simp
  from all have "list_all atom_char ((hd d # xs) @ ''.'' @ (ys @ [last (tl d)]))"
    using d by simp
  then have "list_all atom_char (hd d # xs)" "list_all atom_char (ys @ [last (tl d)])"
    by simp_all
  with d show "\<exists>a b. a \<noteq> [] \<and> b \<noteq> [] \<and> list_all atom_char a \<and> list_all atom_char b
            \<and> d = a @ ''.'' @ b"
    by blast
next
  assume "\<exists>a b. a \<noteq> [] \<and> b \<noteq> [] \<and> list_all atom_char a \<and> list_all atom_char b
            \<and> d = a @ ''.'' @ b"
  then obtain a b where ab: "a \<noteq> []" "b \<noteq> []" "list_all atom_char a" "list_all atom_char b"
    "d = a @ ''.'' @ b" by blast
  from ab(1) obtain x xs where a: "a = x # xs" by (cases a) auto
  from ab(2) have b: "b = butlast b @ [last b]" by simp
  have "tl d = xs @ CHR ''.'' # b" using ab(5) a by simp
  then have "butlast (tl d) = xs @ CHR ''.'' # butlast b"
    using ab(2) by (simp add: butlast_append)
  then have "CHR ''.'' \<in> set (butlast (tl d))" by simp
  moreover have "list_all atom_char d" using ab atom_dot by simp
  ultimately show "domain_match d" by (simp add: domain_match_def)
qed

lemma EMAIL_REGEX_match_iff:
  "EMAIL_REGEX_match s \<longleftrightarrow>
     (\<exists>l a b. l \<noteq> [] \<and> a \<noteq> [] \<and> b \<noteq> []
        \<and> list_all atom_char l \<and> list_all atom_char a \<and> list_all atom_char b
        \<and> (s = l @ ''@'' @ a @ ''.'' @ b \<or> s = l @ ''@'' @ a @ ''.'' @ b @ [CHR 0x0A]))"
  (is "?L \<longleftrightarrow> ?R")
proof
  assume L: ?L
  let ?l = "takeWhile atom_char s"
  from L have l_ne: "?l \<noteq> []" by (simp add: EMAIL_REGEX_match_def)
  have l_all: "list_all atom_char ?l"
    by (auto simp: list_all_iff dest: set_takeWhileD)
  from L obtain d where dw: "dropWhile atom_char s = CHR ''@'' # d"
    and alt: "domain_match d \<or> (d \<noteq> [] \<and> last d = CHR 0x0A \<and> domain_match (butlast d))"
    by (auto simp: EMAIL_REGEX_match_def split: list.splits)
  have s: "s = ?l @ ''@'' @ d"
    using takeWhile_dropWhile_id [of atom_char s] dw by simp
  from alt show ?R
  proof
    assume "domain_match d"
    then obtain a b where "a \<noteq> []" "b \<noteq> []" "list_all atom_char a" "list_all atom_char b"
      "d = a @ ''.'' @ b" by (auto simp: domain_match_iff)
    with s l_ne l_all show ?R by blast
  next
    assume c: "d \<noteq> [] \<and> last d = CHR 0x0A \<and> domain_match (butlast d)"
    then obtain a b where ab: "a \<noteq> []" "b \<noteq> []" "list_all atom_char a" "list_all atom_char b"
      "butlast d = a @ ''.'' @ b" by (auto simp: domain_match_iff)
    from c have "d = butlast d @ [CHR 0x0A]"
      by (metis append_butlast_last_id)
    with ab(5) have "d = a @ ''.'' @ b @ [CHR 0x0A]" by simp
    with s have "s = ?l @ ''@'' @ a @ ''.'' @ b @ [CHR 0x0A]" by simp
    with ab l_ne l_all show ?R by blast
  qed
next
  assume ?R
  then obtain l a b where h: "l \<noteq> []" "a \<noteq> []" "b \<noteq> []"
    "list_all atom_char l" "list_all atom_char a" "list_all atom_char b"
    and s: "s = l @ ''@'' @ a @ ''.'' @ b \<or> s = l @ ''@'' @ a @ ''.'' @ b @ [CHR 0x0A]"
    by blast
  from s obtain d where sd: "s = l @ CHR ''@'' # d"
    and d: "d = a @ ''.'' @ b \<or> d = (a @ ''.'' @ b) @ [CHR 0x0A]"
    by auto
  have tw: "takeWhile atom_char s = l"
    using h(4) not_atom_at by (simp add: sd takeWhile_append2 list_all_iff)
  have dw: "dropWhile atom_char s = CHR ''@'' # d"
    using h(4) not_atom_at by (simp add: sd dropWhile_append2 list_all_iff)
  have dm: "domain_match (a @ ''.'' @ b)"
    using h by (auto simp: domain_match_iff)
  from d have "domain_match d \<or> (d \<noteq> [] \<and> last d = CHR 0x0A \<and> domain_match (butlast d))"
  proof
    assume "d = a @ ''.'' @ b"
    with dm show ?thesis by simp
  next
    assume "d = (a @ ''.'' @ b) @ [CHR 0x0A]"
    then have "d \<noteq> []" "last d = CHR 0x0A" "butlast d = a @ ''.'' @ b"
      by (simp_all only: snoc_eq_iff_butlast butlast_snoc last_snoc) simp_all
    with dm show ?thesis by simp
  qed
  with tw dw h(1) show ?L by (simp add: EMAIL_REGEX_match_def)
qed

section \<open>De-duplication\<close>

lemma dedup_loop_acc: "dedup_loop xs seen acc = acc @ dedup_loop xs seen []"
proof (induction xs arbitrary: seen acc)
  case Nil
  show ?case by simp
next
  case (Cons p xs)
  obtain e r where p: "p = (e, r)" by (cases p)
  show ?case
  proof (cases "lower e \<in> seen")
    case True
    then show ?thesis using Cons.IH [of seen acc] by (simp add: p)
  next
    case False
    have "dedup_loop xs (insert (lower e) seen) (acc @ [(e, r)])
        = (acc @ [(e, r)]) @ dedup_loop xs (insert (lower e) seen) []"
      by (rule Cons.IH)
    moreover have "dedup_loop xs (insert (lower e) seen) [(e, r)]
        = [(e, r)] @ dedup_loop xs (insert (lower e) seen) []"
      by (rule Cons.IH)
    ultimately show ?thesis using False by (simp add: p)
  qed
qed

lemma dedup_loop_Cons:
  "dedup_loop (p # xs) seen [] =
     (if lower (fst p) \<in> seen then dedup_loop xs seen []
      else p # dedup_loop xs (insert (lower (fst p)) seen) [])"
  using dedup_loop_acc [of xs "insert (lower (fst p)) seen" "[p]"]
  by (cases p) simp

lemma dedup_loop_keys:
  "(\<lambda>q. lower (fst q)) ` set (dedup_loop xs seen []) = (\<lambda>q. lower (fst q)) ` set xs - seen"
  by (induction xs arbitrary: seen) (auto simp: dedup_loop_Cons)

lemma dedup_loop_distinct: "distinct (map (lower \<circ> fst) (dedup_loop xs seen []))"
proof (induction xs arbitrary: seen)
  case Nil
  show ?case by simp
next
  case (Cons p xs)
  have "lower (fst p) \<notin> (\<lambda>q. lower (fst q)) ` set (dedup_loop xs (insert (lower (fst p)) seen) [])"
    by (simp add: dedup_loop_keys)
  then show ?case using Cons.IH by (simp add: dedup_loop_Cons)
qed

lemma dedup_loop_subseq: "subseq (dedup_loop xs seen []) xs"
  by (induction xs arbitrary: seen) (auto simp: dedup_loop_Cons)

lemma dedup_loop_idem:
  "dedup_loop (dedup_loop xs seen []) seen [] = dedup_loop xs seen []"
proof (induction xs arbitrary: seen)
  case Nil
  show ?case by simp
next
  case (Cons p xs)
  show ?case
  proof (cases "lower (fst p) \<in> seen")
    case True
    then show ?thesis using Cons.IH [of seen] by (simp add: dedup_loop_Cons)
  next
    case False
    let ?s = "insert (lower (fst p)) seen"
    have "dedup_loop (p # dedup_loop xs ?s []) seen [] = p # dedup_loop (dedup_loop xs ?s []) ?s []"
      using False by (simp add: dedup_loop_Cons)
    then show ?thesis using False Cons.IH [of ?s] by (simp add: dedup_loop_Cons)
  qed
qed

lemma dedup_loop_append:
  "dedup_loop (xs @ ys) seen acc =
     dedup_loop ys (seen \<union> (\<lambda>q. lower (fst q)) ` set xs) (dedup_loop xs seen acc)"
proof (induction xs arbitrary: seen acc)
  case Nil
  show ?case by simp
next
  case (Cons p xs)
  obtain e r where p: "p = (e, r)" by (cases p)
  show ?case
  proof (cases "lower e \<in> seen")
    case True
    then have "seen \<union> (\<lambda>q. lower (fst q)) ` set (p # xs) = seen \<union> (\<lambda>q. lower (fst q)) ` set xs"
      by (auto simp: p)
    then show ?thesis using True Cons.IH [of seen acc] by (simp add: p)
  next
    case False
    have "seen \<union> (\<lambda>q. lower (fst q)) ` set (p # xs) = insert (lower e) seen \<union> (\<lambda>q. lower (fst q)) ` set xs"
      by (auto simp: p)
    then show ?thesis using False Cons.IH [of "insert (lower e) seen" "acc @ [(e, r)]"]
      by (simp add: p)
  qed
qed

lemma dedup_snoc:
  "dedup (xs @ [p]) =
     (if lower (fst p) \<in> (\<lambda>q. lower (fst q)) ` set xs then dedup xs else dedup xs @ [p])"
  by (cases p) (simp add: dedup_def dedup_loop_append)

lemma dedup_index:
  "dedup xs = map (nth xs)
     (filter (\<lambda>i. \<forall>j<i. lower (fst (xs ! j)) \<noteq> lower (fst (xs ! i))) [0..<length xs])"
proof (induction xs rule: rev_induct)
  case Nil
  show ?case by (simp add: dedup_def)
next
  case (snoc p xs)
  let ?P = "\<lambda>ys i. \<forall>j<i. lower (fst (ys ! j)) \<noteq> lower (fst (ys ! i))"
  have old: "filter (?P (xs @ [p])) [0..<length xs] = filter (?P xs) [0..<length xs]"
    by (rule filter_cong) (auto simp: nth_append)
  have nth_old: "map (nth (xs @ [p])) (filter (?P xs) [0..<length xs])
               = map (nth xs) (filter (?P xs) [0..<length xs])"
    by (rule map_cong) (auto simp: nth_append)
  have new: "?P (xs @ [p]) (length xs) \<longleftrightarrow> lower (fst p) \<notin> (\<lambda>q. lower (fst q)) ` set xs"
  proof
    assume a: "?P (xs @ [p]) (length xs)"
    show "lower (fst p) \<notin> (\<lambda>q. lower (fst q)) ` set xs"
    proof
      assume "lower (fst p) \<in> (\<lambda>q. lower (fst q)) ` set xs"
      then obtain q where q: "q \<in> set xs" "lower (fst p) = lower (fst q)" by auto
      then obtain j where j: "j < length xs" "xs ! j = q" by (auto simp: in_set_conv_nth)
      with a have "lower (fst ((xs @ [p]) ! j)) \<noteq> lower (fst ((xs @ [p]) ! length xs))" by blast
      with j q show False by (simp add: nth_append)
    qed
  next
    assume b: "lower (fst p) \<notin> (\<lambda>q. lower (fst q)) ` set xs"
    show "?P (xs @ [p]) (length xs)"
    proof (intro allI impI)
      fix j assume "j < length xs"
      then have "xs ! j \<in> set xs" by simp
      with b have "lower (fst (xs ! j)) \<noteq> lower (fst p)" by (metis image_eqI)
      with \<open>j < length xs\<close> show "lower (fst ((xs @ [p]) ! j)) \<noteq> lower (fst ((xs @ [p]) ! length xs))"
        by (simp add: nth_append)
    qed
  qed
  show ?case
    using snoc.IH old nth_old new by (simp add: dedup_snoc)
qed

text \<open>
  C2. De-duplication keeps exactly the pairs at the positions where an address occurs for
  the first time under case-insensitive comparison (no earlier position holds an address
  with the same lowercase form), each as it stands in the input and in the input's
  order; every later occurrence is dropped; and the addresses it returns are pairwise
  distinct after lowercasing.
\<close>

theorem dedup_first_occurrences:
  "dedup pairs = map (nth pairs)
       (filter (\<lambda>i. \<forall>j<i. lower (fst (pairs ! j)) \<noteq> lower (fst (pairs ! i)))
          [0..<length pairs])
   \<and> subseq (dedup pairs) pairs
   \<and> distinct (map (\<lambda>p. lower (fst p)) (dedup pairs))"
proof (intro conjI)
  show "dedup pairs = map (nth pairs)
       (filter (\<lambda>i. \<forall>j<i. lower (fst (pairs ! j)) \<noteq> lower (fst (pairs ! i)))
          [0..<length pairs])"
    by (rule dedup_index)
  show "subseq (dedup pairs) pairs"
    unfolding dedup_def by (rule dedup_loop_subseq)
  have "distinct (map (lower \<circ> fst) (dedup pairs))"
    unfolding dedup_def by (rule dedup_loop_distinct)
  then show "distinct (map (\<lambda>p. lower (fst p)) (dedup pairs))"
    by (simp add: comp_def)
qed

theorem dedup_first_occurrences_witness:
  "dedup example_pairs = [(''Ann@x.org'', recA), (''bob@y.org'', recB)]
   \<and> dedup example_pairs = map (nth example_pairs)
       (filter (\<lambda>i. \<forall>j<i. lower (fst (example_pairs ! j)) \<noteq> lower (fst (example_pairs ! i)))
          [0..<length example_pairs])
   \<and> subseq (dedup example_pairs) example_pairs
   \<and> distinct (map (\<lambda>p. lower (fst p)) (dedup example_pairs))"
proof -
  have v: "dedup example_pairs = [(''Ann@x.org'', recA), (''bob@y.org'', recB)]"
    by code_simp
  from dedup_first_occurrences [of example_pairs] v show ?thesis
    by blast
qed

text \<open>
  C8. De-duplication is idempotent: a second pass returns the list of the first.
\<close>

theorem dedup_idempotent: "dedup (dedup pairs) = dedup pairs"
  unfolding dedup_def by (rule dedup_loop_idem)

section \<open>Extraction\<close>

lemma collect_acc:
  "collect v rs found missing =
     (found @ fst (collect v rs [] []), missing @ snd (collect v rs [] []))"
proof (induction rs arbitrary: found missing)
  case Nil
  show ?case by simp
next
  case (Cons r rs)
  show ?case
  proof (cases "address_of v r")
    case None
    then show ?thesis
      using Cons.IH [of found "missing @ [r]"] Cons.IH [of "[]" "[r]"] by simp
  next
    case (Some e)
    then show ?thesis
      using Cons.IH [of "found @ [(e, r)]" missing] Cons.IH [of "[(e, r)]" "[]"] by simp
  qed
qed

lemma collect_Cons_None:
  "address_of v r = None \<Longrightarrow>
     collect v (r # rs) [] [] = (fst (collect v rs [] []), r # snd (collect v rs [] []))"
  using collect_acc [of v rs "[]" "[r]"] by simp

lemma collect_Cons_Some:
  "address_of v r = Some e \<Longrightarrow>
     collect v (r # rs) [] [] = ((e, r) # fst (collect v rs [] []), snd (collect v rs [] []))"
  using collect_acc [of v rs "[(e, r)]" "[]"] by simp

lemma collect_missing:
  "snd (collect v rs [] []) = filter (\<lambda>r. address_of v r = None) rs"
proof (induction rs)
  case Nil
  show ?case by simp
next
  case (Cons r rs)
  then show ?case
    by (cases "address_of v r") (simp_all add: collect_Cons_None collect_Cons_Some del: collect.simps)
qed

lemma collect_found:
  "fst (collect v rs [] []) =
     map (\<lambda>r. (the (address_of v r), r)) (filter (\<lambda>r. address_of v r \<noteq> None) rs)"
proof (induction rs)
  case Nil
  show ?case by simp
next
  case (Cons r rs)
  then show ?case
    by (cases "address_of v r") (simp_all add: collect_Cons_None collect_Cons_Some del: collect.simps)
qed

lemma extract_emails_eq:
  "extract_emails v rs =
     (dedup (map (\<lambda>r. (the (address_of v r), r)) (filter (\<lambda>r. address_of v r \<noteq> None) rs)),
      filter (\<lambda>r. address_of v r = None) rs)"
  unfolding extract_emails_def
  by (cases "collect v rs [] []") (use collect_found [of v rs] collect_missing [of v rs] in simp)


lemma dedup_keys:
  "(\<lambda>p. lower (fst p)) ` set (dedup xs) = (\<lambda>p. lower (fst p)) ` set xs"
  unfolding dedup_def using dedup_loop_keys [of xs "{}"] by simp

lemma dedup_subseq: "subseq (dedup xs) xs"
  unfolding dedup_def by (rule dedup_loop_subseq)

lemma dedup_subset: "set (dedup xs) \<subseteq> set xs"
  using dedup_subseq [of xs] by (auto dest: list_emb_set)

lemma dedup_distinct: "distinct (map (\<lambda>p. lower (fst p)) (dedup xs))"
proof -
  have "distinct (map (lower \<circ> fst) (dedup xs))"
    unfolding dedup_def by (rule dedup_loop_distinct)
  then show ?thesis by (simp add: comp_def)
qed

lemma dedup_length: "length (dedup xs) = card ((\<lambda>p. lower (fst p)) ` set xs)"
proof -
  have "length (dedup xs) = length (map (\<lambda>p. lower (fst p)) (dedup xs))" by simp
  also have "\<dots> = card (set (map (\<lambda>p. lower (fst p)) (dedup xs)))"
    using dedup_distinct [of xs] by (rule distinct_card [symmetric])
  also have "\<dots> = card ((\<lambda>p. lower (fst p)) ` set xs)"
    by (simp add: dedup_keys)
  finally show ?thesis .
qed

text \<open>
  C1 (as amended). The first loop classifies every record once: the rejected output is
  the list of the records for which no address was accepted, in input order, and the
  other records, each paired with its address, form the list \<open>found\<close>. The addressed
  output is what de-duplication keeps of \<open>found\<close>: exactly the pairs at the positions
  where no earlier pair has the same address up to case, so as many pairs as there are
  addresses that differ after lowercasing. A record whose address was seen before is
  dropped: it is in neither output and nothing counts it. So a record is in at most one
  output, and the two outputs together are no longer than the input. On the scenario
  the addressed output is the pair of \<open>a@a.com\<close> and record A, the rejected output is
  record C alone, and the run prints a summary of 3 total, 1 to send, 1 skipped.
\<close>

theorem extract_emails_accounting:
  "(let found = map (\<lambda>r. (the (address_of validate r), r))
                  (filter (\<lambda>r. address_of validate r \<noteq> None) records)
    in extract_emails validate records
         = (dedup found, filter (\<lambda>r. address_of validate r = None) records)
       \<and> dedup found = map (nth found)
           (filter (\<lambda>i. \<forall>j<i. lower (fst (found ! j)) \<noteq> lower (fst (found ! i)))
              [0..<length found])
       \<and> length (dedup found) = card ((\<lambda>p. lower (fst p)) ` set found))
   \<and> subseq (map snd (fst (extract_emails validate records)))
        (filter (\<lambda>r. address_of validate r \<noteq> None) records)
   \<and> (\<lambda>p. lower (fst p)) ` set (fst (extract_emails validate records))
       = (\<lambda>r. lower (the (address_of validate r)))
           ` {r \<in> set records. address_of validate r \<noteq> None}
   \<and> length (fst (extract_emails validate records))
         + length (snd (extract_emails validate records)) \<le> length records
   \<and> extract_emails validate_examples scenario = ([(''a@a.com'', recA)], [recC])
   \<and> fst (main (example_world (JArr (map JObj scenario))) dry_run_args)
       = [Print ''[SUMMARY] 3 total; 1 to send; 1 skipped (no/invalid email).'',
          Print ''[DRY-RUN] Would send 1 message(s). No SMTP connection will be made.'']"
proof -
  let ?ok = "filter (\<lambda>r. address_of validate r \<noteq> None) records"
  let ?found = "map (\<lambda>r. (the (address_of validate r), r)) ?ok"
  have eq: "extract_emails validate records
              = (dedup ?found, filter (\<lambda>r. address_of validate r = None) records)"
    by (rule extract_emails_eq)
  have idx: "dedup ?found = map (nth ?found)
           (filter (\<lambda>i. \<forall>j<i. lower (fst (?found ! j)) \<noteq> lower (fst (?found ! i)))
              [0..<length ?found])"
    by (rule dedup_index)
  have cnt: "length (dedup ?found) = card ((\<lambda>p. lower (fst p)) ` set ?found)"
    by (rule dedup_length)
  have fst_eq: "fst (extract_emails validate records) = dedup ?found"
    by (simp add: eq)
  have snd_eq: "snd (extract_emails validate records)
                  = filter (\<lambda>r. address_of validate r = None) records"
    by (simp add: eq)
  have "subseq (map snd (dedup ?found)) (map snd ?found)"
    by (rule subseq_map) (rule dedup_subseq)
  moreover have "map snd ?found = ?ok"
    by (simp add: comp_def)
  ultimately have sub: "subseq (map snd (fst (extract_emails validate records))) ?ok"
    by (simp add: fst_eq)
  have keys: "(\<lambda>p. lower (fst p)) ` set (fst (extract_emails validate records))
       = (\<lambda>r. lower (the (address_of validate r)))
           ` {r \<in> set records. address_of validate r \<noteq> None}"
    by (simp add: fst_eq dedup_keys image_image)
  have "length (dedup ?found) \<le> length ?found"
    using dedup_subseq [of ?found] by (rule list_emb_length)
  then have "length (fst (extract_emails validate records)) \<le> length ?ok"
    by (simp add: fst_eq)
  moreover have "length ?ok + length (filter (\<lambda>r. address_of validate r = None) records)
                   = length records"
    using sum_length_filter_compl [of "\<lambda>r. address_of validate r \<noteq> None" records] by simp
  ultimately have len: "length (fst (extract_emails validate records))
         + length (snd (extract_emails validate records)) \<le> length records"
    by (simp add: snd_eq)
  have sc: "extract_emails validate_examples scenario = ([(''a@a.com'', recA)], [recC])"
    by code_simp
  have run: "fst (main (example_world (JArr (map JObj scenario))) dry_run_args)
       = [Print ''[SUMMARY] 3 total; 1 to send; 1 skipped (no/invalid email).'',
          Print ''[DRY-RUN] Would send 1 message(s). No SMTP connection will be made.'']"
    by code_simp
  from eq idx cnt sub keys len sc run show ?thesis
    unfolding Let_def by blast
qed

theorem extract_emails_accounting_witness:
  "map (\<lambda>r. (the (address_of validate_examples r), r))
       (filter (\<lambda>r. address_of validate_examples r \<noteq> None) scenario)
     = [(''a@a.com'', recA), (''a@a.com'', recB)]
   \<and> extract_emails validate_examples scenario
       = (dedup [(''a@a.com'', recA), (''a@a.com'', recB)], [recC])
   \<and> dedup [(''a@a.com'', recA), (''a@a.com'', recB)] = [(''a@a.com'', recA)]
   \<and> length (dedup [(''a@a.com'', recA), (''a@a.com'', recB)])
       = card ((\<lambda>p. lower (fst p)) ` set [(''a@a.com'', recA), (''a@a.com'', recB)])"
proof -
  have f: "map (\<lambda>r. (the (address_of validate_examples r), r))
       (filter (\<lambda>r. address_of validate_examples r \<noteq> None) scenario)
     = [(''a@a.com'', recA), (''a@a.com'', recB)]"
    by code_simp
  have m: "filter (\<lambda>r. address_of validate_examples r = None) scenario = [recC]"
    by code_simp
  have d: "dedup [(''a@a.com'', recA), (''a@a.com'', recB)] = [(''a@a.com'', recA)]"
    by code_simp
  note t = extract_emails_accounting [of validate_examples scenario, unfolded Let_def f m]
  from t f d show ?thesis by blast
qed

text \<open>
  On the scenario record B is in the input and in neither output, one record is counted
  as rejected, and the summary line says so.
\<close>

theorem extract_emails_scenario_counterexample:
  "recB \<in> set scenario
   \<and> recB \<notin> snd ` set (fst (extract_emails validate_examples scenario))
   \<and> recB \<notin> set (snd (extract_emails validate_examples scenario))
   \<and> length (snd (extract_emails validate_examples scenario)) = 1
   \<and> hd (fst (main (example_world (JArr (map JObj scenario))) list_args))
       = Print ''[SUMMARY] 3 total; 1 to send; 1 skipped (no/invalid email).''"
  by code_simp

lemma address_of_cases:
  assumes "address_of validate r = Some e"
  shows "\<exists>c. find_email r = Some c
           \<and> (validate c = Some e \<or> (validate c = None \<and> EMAIL_REGEX_match c \<and> e = c))"
  using assms
  by (auto simp: address_of_def clean_email_def split: option.splits if_splits)

text \<open>
  C7 (as amended). Take a validator whose normalized forms have their domain in
  lowercase. The pairs the first loop finds are the records with an accepted candidate,
  in input order, each with its address: the normalized form of the candidate, its
  domain in lowercase, when the validator accepts the candidate; the candidate itself,
  unchanged, when the validator refuses it and the regular expression accepts it. On
  either path a pair is kept in the addressed output exactly when no earlier pair has
  the same address after lowercasing the whole of both, so the lowercase forms of the
  addresses in the output are pairwise distinct.
\<close>

theorem extract_emails_address_form:
  assumes "\<forall>c n. validate c = Some n \<longrightarrow> lower (domain_part n) = domain_part n"
  shows
  "(let found = fst (collect validate records [] [])
    in found = map (\<lambda>r. (the (address_of validate r), r))
                 (filter (\<lambda>r. address_of validate r \<noteq> None) records)
       \<and> (\<forall>(e, r) \<in> set found.
             \<exists>c. find_email r = Some c
               \<and> ((validate c = Some e \<and> lower (domain_part e) = domain_part e)
                   \<or> (validate c = None \<and> EMAIL_REGEX_match c \<and> e = c)))
       \<and> fst (extract_emails validate records) = dedup found
       \<and> fst (extract_emails validate records) = map (nth found)
           (filter (\<lambda>i. \<forall>j<i. lower (fst (found ! j)) \<noteq> lower (fst (found ! i)))
              [0..<length found]))
   \<and> distinct (map (\<lambda>p. lower (fst p)) (fst (extract_emails validate records)))"
proof -
  let ?found = "fst (collect validate records [] [])"
  have f: "?found = map (\<lambda>r. (the (address_of validate r), r))
                 (filter (\<lambda>r. address_of validate r \<noteq> None) records)"
    by (rule collect_found)
  have form: "\<forall>(e, r) \<in> set ?found.
             \<exists>c. find_email r = Some c
               \<and> ((validate c = Some e \<and> lower (domain_part e) = domain_part e)
                   \<or> (validate c = None \<and> EMAIL_REGEX_match c \<and> e = c))"
  proof (intro ballI)
    fix p assume "p \<in> set ?found"
    then obtain r where r: "address_of validate r \<noteq> None" "p = (the (address_of validate r), r)"
      unfolding f by auto
    then obtain e where e: "address_of validate r = Some e" "p = (e, r)" by auto
    from address_of_cases [OF e(1)] obtain c where c: "find_email r = Some c"
      "validate c = Some e \<or> (validate c = None \<and> EMAIL_REGEX_match c \<and> e = c)"
      by blast
    from c(2) assms
    have "(validate c = Some e \<and> lower (domain_part e) = domain_part e)
            \<or> (validate c = None \<and> EMAIL_REGEX_match c \<and> e = c)"
      by blast
    with c(1) show "case p of (e, r) \<Rightarrow> \<exists>c. find_email r = Some c
               \<and> ((validate c = Some e \<and> lower (domain_part e) = domain_part e)
                   \<or> (validate c = None \<and> EMAIL_REGEX_match c \<and> e = c))"
      by (auto simp: e(2))
  qed
  have d: "fst (extract_emails validate records) = dedup ?found"
    by (simp add: extract_emails_def split: prod.splits)
  have idx: "fst (extract_emails validate records) = map (nth ?found)
           (filter (\<lambda>i. \<forall>j<i. lower (fst (?found ! j)) \<noteq> lower (fst (?found ! i)))
              [0..<length ?found])"
    unfolding d by (rule dedup_index)
  have "distinct (map (lower \<circ> fst) (dedup ?found))"
    unfolding dedup_def by (rule dedup_loop_distinct)
  then have dis: "distinct (map (\<lambda>p. lower (fst p)) (fst (extract_emails validate records)))"
    by (simp add: d comp_def)
  from f form d idx dis show ?thesis
    unfolding Let_def by blast
qed

theorem extract_emails_address_form_witness:
  "validate_examples ''Ann@X.ORG'' = Some ''Ann@x.org''
   \<and> lower (domain_part ''Ann@x.org'') = domain_part ''Ann@x.org''
   \<and> validate_examples ''john..doe@ACME.ORG'' = None
   \<and> EMAIL_REGEX_match ''john..doe@ACME.ORG''
   \<and> fst (collect validate_examples mixed_case_batch [] [])
       = [(''Ann@x.org'', mixed_case_batch ! 0), (''john..doe@ACME.ORG'', mixed_case_batch ! 1),
          (''ann@x.org'', mixed_case_batch ! 2), (''JOHN..DOE@acme.org'', mixed_case_batch ! 3)]
   \<and> fst (extract_emails validate_examples mixed_case_batch)
       = dedup (fst (collect validate_examples mixed_case_batch [] []))
   \<and> fst (extract_emails validate_examples mixed_case_batch)
       = [(''Ann@x.org'', mixed_case_batch ! 0), (''john..doe@ACME.ORG'', mixed_case_batch ! 1)]
   \<and> distinct (map (\<lambda>p. lower (fst p)) (fst (extract_emails validate_examples mixed_case_batch)))"
proof -
  have l1: "lower (domain_part ''a@a.com'') = domain_part ''a@a.com''" by code_simp
  have l2: "lower (domain_part ''ann@x.org'') = domain_part ''ann@x.org''" by code_simp
  have l3: "lower (domain_part ''Ann@x.org'') = domain_part ''Ann@x.org''" by code_simp
  have norm: "\<forall>c n. validate_examples c = Some n \<longrightarrow> lower (domain_part n) = domain_part n"
    using l1 l2 l3 by (auto simp: validate_examples_def split: if_splits)
  have v1: "validate_examples ''Ann@X.ORG'' = Some ''Ann@x.org''" by code_simp
  have v2: "validate_examples ''john..doe@ACME.ORG'' = None" by code_simp
  have rx: "EMAIL_REGEX_match ''john..doe@ACME.ORG''" by code_simp
  have f: "fst (collect validate_examples mixed_case_batch [] [])
       = [(''Ann@x.org'', mixed_case_batch ! 0), (''john..doe@ACME.ORG'', mixed_case_batch ! 1),
          (''ann@x.org'', mixed_case_batch ! 2), (''JOHN..DOE@acme.org'', mixed_case_batch ! 3)]"
    by code_simp
  have x: "fst (extract_emails validate_examples mixed_case_batch)
       = [(''Ann@x.org'', mixed_case_batch ! 0), (''john..doe@ACME.ORG'', mixed_case_batch ! 1)]"
    by code_simp
  note t = extract_emails_address_form [OF norm, of mixed_case_batch, unfolded Let_def]
  from t v1 l3 v2 rx f x show ?thesis by blast
qed

text \<open>
  An address that only the regular expression accepts keeps the capitals of its domain.
\<close>

theorem regex_fallback_counterexample:
  "validate_examples ''john..doe@ACME.ORG'' = None
   \<and> fst (extract_emails validate_examples [rec_dots]) = [(''john..doe@ACME.ORG'', rec_dots)]
   \<and> domain_part ''john..doe@ACME.ORG'' = ''ACME.ORG''
   \<and> lower (domain_part ''john..doe@ACME.ORG'') \<noteq> domain_part ''john..doe@ACME.ORG''"
  by code_simp

section \<open>The shape of the batch file\<close>

text \<open>
  C9. When the top-level value is an object, the records are the dicts of the list under
  \<open>items\<close> if \<open>items\<close> holds a list; otherwise of the list under \<open>results\<close> if that
  holds a list; otherwise of the list under \<open>data\<close>. A key that is absent or holds
  something that is not a list is passed over, it raises nothing.
\<close>

theorem load_json_records_priority:
  assumes "reader path = Inr (JObj data)"
  shows "(map_of data ''items'' = Some (JArr xs)
            \<longrightarrow> load_json_records reader path = Inr (dicts_only xs))
       \<and> ((\<forall>ys. map_of data ''items'' \<noteq> Some (JArr ys))
            \<and> map_of data ''results'' = Some (JArr xs)
            \<longrightarrow> load_json_records reader path = Inr (dicts_only xs))
       \<and> ((\<forall>ys. map_of data ''items'' \<noteq> Some (JArr ys))
            \<and> (\<forall>ys. map_of data ''results'' \<noteq> Some (JArr ys))
            \<and> map_of data ''data'' = Some (JArr xs)
            \<longrightarrow> load_json_records reader path = Inr (dicts_only xs))"
  using assms
  by (auto simp: load_json_records_def records_of_def split: option.splits json.splits)

theorem load_json_records_priority_witness:
  "map_of items_first ''items'' = Some (JArr [JObj recB, JStr ''x''])
   \<and> load_json_records (\<lambda>path. Inr (JObj items_first)) ''contacts.json'' = Inr [recB]
   \<and> (\<forall>ys. map_of wrapped_fields ''items'' \<noteq> Some (JArr ys))
   \<and> map_of wrapped_fields ''results'' = Some (JArr [JObj recA, JInt 7])
   \<and> load_json_records (\<lambda>path. Inr (JObj wrapped_fields)) ''contacts.json'' = Inr [recA]
   \<and> (\<forall>ys. map_of data_last ''items'' \<noteq> Some (JArr ys))
   \<and> (\<forall>ys. map_of data_last ''results'' \<noteq> Some (JArr ys))
   \<and> map_of data_last ''data'' = Some (JArr [JObj recC])
   \<and> load_json_records (\<lambda>path. Inr (JObj data_last)) ''contacts.json'' = Inr [recC]"
proof -
  have i1: "map_of items_first ''items'' = Some (JArr [JObj recB, JStr ''x''])"
    by (simp add: items_first_def)
  have "(\<lambda>path. Inr (JObj items_first) :: error + json) ''contacts.json''
          = Inr (JObj items_first)"
    by simp
  from load_json_records_priority [OF this, of "[JObj recB, JStr ''x'']"] i1
  have r1: "load_json_records (\<lambda>path. Inr (JObj items_first)) ''contacts.json'' = Inr [recB]"
    by simp
  have i2: "\<forall>ys. map_of wrapped_fields ''items'' \<noteq> Some (JArr ys)"
    by (simp add: wrapped_fields_def)
  have d2: "map_of wrapped_fields ''results'' = Some (JArr [JObj recA, JInt 7])"
    by (simp add: wrapped_fields_def)
  have "(\<lambda>path. Inr (JObj wrapped_fields) :: error + json) ''contacts.json''
          = Inr (JObj wrapped_fields)"
    by simp
  from load_json_records_priority [OF this, of "[JObj recA, JInt 7]"] i2 d2
  have r2: "load_json_records (\<lambda>path. Inr (JObj wrapped_fields)) ''contacts.json''
              = Inr [recA]"
    by simp
  have i3: "\<forall>ys. map_of data_last ''items'' \<noteq> Some (JArr ys)"
    by (simp add: data_last_def)
  have d3: "\<forall>ys. map_of data_last ''results'' \<noteq> Some (JArr ys)"
    by (simp add: data_last_def)
  have e3: "map_of data_last ''data'' = Some (JArr [JObj recC])"
    by (simp add: data_last_def)
  have "(\<lambda>path. Inr (JObj data_last) :: error + json) ''contacts.json''
          = Inr (JObj data_last)"
    by simp
  from load_json_records_priority [OF this, of "[JObj recC]"] i3 d3 e3
  have r3: "load_json_records (\<lambda>path. Inr (JObj data_last)) ''contacts.json'' = Inr [recC]"
    by simp
  from i1 r1 i2 d2 r2 i3 d3 e3 r3 show ?thesis by blast
qed

lemma unsupported_shape_raises:
  assumes "from_env W = Inr cfg" "nonempty (arg_test args) = None"
    "nonempty (arg_list args) = Some path" "path_exists W path"
    "read_json W path = Inr data" "records_of data = Inl e"
  shows "main W args = ([], Raised e)"
  using assms by (simp add: main_def main_list_def load_json_records_def)

text \<open>
  C5. A batch file whose JSON is an object without a list under \<open>items\<close>, \<open>results\<close> or
  \<open>data\<close> makes \<open>load_json_records\<close> raise \<open>ValueError\<close>. \<open>main\<close> calls it outside
  every \<open>try\<close>: the run ends before dispatch, but with that exception uncaught, no
  tagged line printed and exit status 1 instead of 2.
\<close>

theorem unsupported_shape_uncaught:
  "main (example_world (JObj [(''contacts'', JArr [JObj recA])])) list_args
     = ([], Raised unsupported_shape)
   \<and> exit_status (Raised unsupported_shape) = 1"
  by code_simp

section \<open>Pacing and dry runs\<close>

lemma pacing_Cons [simp]:
  "pacing (SendMessage m # evs) = SendMessage m # pacing evs"
  "pacing (Sleep d # evs) = Sleep d # pacing evs"
  "pacing (Print l # evs) = pacing evs"
  "pacing (Login u pw # evs) = pacing evs"
  "pacing (Connect b h pt # evs) = pacing evs"
  "pacing (Ehlo # evs) = pacing evs"
  "pacing (StartTLS # evs) = pacing evs"
  "pacing (Quit # evs) = pacing evs"
  "pacing [] = []"
  by (simp_all add: pacing_def)

lemma pacing_append [simp]: "pacing (xs @ ys) = pacing xs @ pacing ys"
  by (simp add: pacing_def)

lemma sleeps_Cons [simp]:
  "sleeps (SendMessage m # evs) = sleeps evs"
  "sleeps (Sleep d # evs) = d # sleeps evs"
  "sleeps (Print l # evs) = sleeps evs"
  "sleeps (Login u pw # evs) = sleeps evs"
  "sleeps (Connect b h pt # evs) = sleeps evs"
  "sleeps (Ehlo # evs) = sleeps evs"
  "sleeps (StartTLS # evs) = sleeps evs"
  "sleeps (Quit # evs) = sleeps evs"
  "sleeps [] = []"
  by (simp_all add: sleeps_def List.map_filter_simps)

lemma sleeps_append [simp]: "sleeps (xs @ ys) = sleeps xs @ sleeps ys"
  by (simp add: sleeps_def List.map_filter_def)

lemma sleeps_pacing [simp]: "sleeps (pacing evs) = sleeps evs"
proof (induction evs)
  case Nil
  show ?case by simp
next
  case (Cons ev evs)
  then show ?case by (cases ev) (simp_all add: pacing_def sleeps_def List.map_filter_simps)
qed


lemma sleeps_sends [simp]: "sleeps (map SendMessage msgs) = []"
  by (induction msgs) simp_all















lemma send_loop_no_sleep: "sleeps (fst (send_loop P T (Finite 0) n i msgs)) = []"
proof (induction msgs arbitrary: i)
  case Nil
  show ?case by simp
next
  case (Cons msg rest)
  show ?case
  proof (cases "smtp_send_message T i msg")
    case None
    with Cons.IH [of "Suc i"] show ?thesis by (simp add: case_prod_beta)
  next
    case (Some e)
    then show ?thesis by simp
  qed
qed

lemma logged_in_no_sleep: "sleeps (fst (logged_in P T config (Finite 0) messages)) = []"
  using send_loop_no_sleep [of P T "length messages" 1 messages]
  by (simp add: logged_in_def case_prod_beta split: option.splits)

lemma send_messages_no_sleep:
  assumes "delay_of P (effective_rate config rate_arg) = Finite 0"
  shows "sleeps (fst (send_messages P T config messages dry_run rate_arg)) = []"
  using assms logged_in_no_sleep [of P T config messages]
  by (simp add: send_messages_def Let_def case_prod_beta split: option.splits)

text \<open>
  C10. The argument \<open>rate_per_minute\<close> of dispatch replaces the configured rate exactly
  when it is not \<open>None\<close>: with \<open>None\<close> dispatch behaves as with the configured rate
  passed, with a number the configured rate plays no part, and with a number \<open>\<le> 0\<close>
  (zero, a negative number, \<open>-inf\<close>) the run never sleeps, whatever rate the
  configuration holds.
\<close>

theorem rate_argument_override:
  "send_messages P T config messages dry_run None
     = send_messages P T config messages dry_run (rate_per_minute config)
   \<and> send_messages P T (config \<lparr> rate_per_minute := other \<rparr>) messages dry_run (Some r)
     = send_messages P T config messages dry_run (Some r)
   \<and> (x \<le> 0 \<longrightarrow>
        sleeps (fst (send_messages P T config messages dry_run (Some (Finite x)))) = [])
   \<and> sleeps (fst (send_messages P T config messages dry_run (Some NegInf))) = []"
proof (intro conjI impI)
  have "effective_rate config None = effective_rate config (rate_per_minute config)"
    by (simp add: effective_rate_def split: option.splits)
  then show "send_messages P T config messages dry_run None
     = send_messages P T config messages dry_run (rate_per_minute config)"
    by (simp add: send_messages_def)
  have "effective_rate (config \<lparr> rate_per_minute := other \<rparr>) (Some r)
          = effective_rate config (Some r)"
    by (simp add: effective_rate_def)
  then show "send_messages P T (config \<lparr> rate_per_minute := other \<rparr>) messages dry_run (Some r)
     = send_messages P T config messages dry_run (Some r)"
    by (simp add: send_messages_def logged_in_def Let_def split: option.splits)
  have "delay_of P (effective_rate config (Some NegInf)) = Finite 0"
    by (simp add: effective_rate_def delay_of_def)
  then show "sleeps (fst (send_messages P T config messages dry_run (Some NegInf))) = []"
    by (rule send_messages_no_sleep)
  assume "x \<le> 0"
  then have "delay_of P (effective_rate config (Some (Finite x))) = Finite 0"
    by (simp add: effective_rate_def delay_of_def)
  then show "sleeps (fst (send_messages P T config messages dry_run (Some (Finite x)))) = []"
    by (rule send_messages_no_sleep)
qed

theorem rate_argument_override_witness:
  "rate_per_minute example_config = Some (Finite 30) \<and> (0::real) \<le> 0
   \<and> sleeps (fst (send_messages cpython good_smtp example_config three_messages False
                    (Some (Finite 0)))) = []
   \<and> sleeps (fst (send_messages cpython good_smtp example_config three_messages False None))
       = [Finite 2, Finite 2]"
proof -
  have c: "rate_per_minute example_config = Some (Finite 30)" by (simp add: example_config_def)
  have s: "sleeps (fst (send_messages cpython good_smtp example_config three_messages False None))
             = [Finite 2, Finite 2]"
    by code_simp
  from rate_argument_override [of cpython good_smtp example_config three_messages False None
         "Finite 0" 0] c s
  show ?thesis by simp
qed

lemma preview_events_quiet: "ev \<in> set (preview_events dir name html) \<Longrightarrow> \<not> is_session ev"
  by (auto simp: preview_events_def is_session_def split: option.splits)

lemma render_all_quiet: "ev \<in> set (fst (render_all W cfg args pairs)) \<Longrightarrow> \<not> is_session ev"
proof (induction pairs)
  case Nil
  then show ?case by simp
next
  case (Cons p pairs)
  obtain a r where p: "p = (a, r)" by (cases p)
  from Cons show ?case
    by (auto simp: p Let_def split: sum.splits prod.splits dest: preview_events_quiet)
qed

lemma send_all_dry_run:
  "arg_dry_run args \<Longrightarrow>
     send_all W cfg args evs messages
       = (evs @ [Print (dry_run_line (length messages))], Returned 0)"
  by (simp add: send_all_def send_messages_def)

lemma main_test_dry_run_quiet:
  assumes "arg_dry_run args" "ev \<in> set (fst (main_test W cfg args email))"
  shows "\<not> is_session ev"
  using assms
  by (auto simp: main_test_def send_all_dry_run is_session_def split: sum.splits
           dest: preview_events_quiet)

lemma main_list_dry_run_quiet:
  assumes "arg_dry_run args" "ev \<in> set (fst (main_list W cfg args path))"
  shows "\<not> is_session ev"
proof (cases "path_exists W path")
  case False
  with assms show ?thesis by (auto simp: main_list_def is_session_def)
next
  case True
  show ?thesis
  proof (cases "load_json_records (read_json W) path")
    case (Inl e)
    with True assms show ?thesis by (simp add: main_list_def)
  next
    case (Inr records)
    obtain pairs missing where ex: "extract_emails (validate_email W) records = (pairs, missing)"
      by (cases "extract_emails (validate_email W) records")
    obtain evs res where ra: "render_all W cfg args pairs = (evs, res)"
      by (cases "render_all W cfg args pairs")
    have q: "\<And>e. e \<in> set evs \<Longrightarrow> \<not> is_session e"
      using render_all_quiet [of _ W cfg args pairs] ra by simp
    from assms True Inr ex ra q show ?thesis
      by (cases res) (auto simp: main_list_def send_all_dry_run is_session_def)
  qed
qed

text \<open>
  C6 (as amended). In a dry run dispatch makes no call on the SMTP session: it prints
  one line, which holds the number of messages that would be sent, and returns nothing;
  a whole run with \<open>--dry-run\<close> makes no call on the session either. No report is
  returned and no message is marked as skipped.
\<close>

theorem dry_run_no_transport:
  "send_messages P T config messages True rate_arg
     = ([Print (dry_run_line (length messages))], Inr ())
   \<and> (arg_dry_run args \<longrightarrow> (\<forall>ev \<in> set (fst (main W args)). \<not> is_session ev))"
proof (intro conjI impI ballI)
  show "send_messages P T config messages True rate_arg
     = ([Print (dry_run_line (length messages))], Inr ())"
    by (simp add: send_messages_def)
next
  fix ev assume d: "arg_dry_run args" and ev: "ev \<in> set (fst (main W args))"
  show "\<not> is_session ev"
  proof (cases "from_env W")
    case (Inl e)
    with ev show ?thesis by (auto simp: main_def is_session_def split: if_splits)
  next
    case (Inr cfg)
    show ?thesis
    proof (cases "nonempty (arg_test args)")
      case (Some email)
      with Inr ev have "ev \<in> set (fst (main_test W cfg args email))" by (simp add: main_def)
      with d show ?thesis by (rule main_test_dry_run_quiet)
    next
      case None
      show ?thesis
      proof (cases "nonempty (arg_list args)")
        case (Some path)
        with Inr None ev have "ev \<in> set (fst (main_list W cfg args path))"
          by (simp add: main_def)
        with d show ?thesis by (rule main_list_dry_run_quiet)
      next
        case None
        with Inr \<open>nonempty (arg_test args) = None\<close> ev show ?thesis by (simp add: main_def)
      qed
    qed
  qed
qed

theorem dry_run_no_transport_witness:
  "arg_dry_run dry_run_args
   \<and> fst (main (example_world (JArr (map JObj scenario))) dry_run_args)
       = [Print ''[SUMMARY] 3 total; 1 to send; 1 skipped (no/invalid email).'',
          Print ''[DRY-RUN] Would send 1 message(s). No SMTP connection will be made.'']
   \<and> list_all (\<lambda>ev. \<not> is_session ev)
        (fst (main (example_world (JArr (map JObj scenario))) dry_run_args))"
proof -
  have d: "arg_dry_run dry_run_args" by (simp add: dry_run_args_def list_args_def)
  have v: "fst (main (example_world (JArr (map JObj scenario))) dry_run_args)
       = [Print ''[SUMMARY] 3 total; 1 to send; 1 skipped (no/invalid email).'',
          Print ''[DRY-RUN] Would send 1 message(s). No SMTP connection will be made.'']"
    by code_simp
  from dry_run_no_transport [of cpython good_smtp example_config three_messages None dry_run_args
         "example_world (JArr (map JObj scenario))"] d
  have "\<forall>ev \<in> set (fst (main (example_world (JArr (map JObj scenario))) dry_run_args)).
          \<not> is_session ev"
    by blast
  with d v show ?thesis by (simp add: list_all_iff)
qed

text \<open>
  A dry run over two messages prints one line and returns \<open>None\<close>; the line names
  neither message and marks nothing as skipped.
\<close>

theorem dry_run_report_counterexample:
  "send_messages cpython good_smtp example_config
       [example_message ''a@a.com'', example_message ''b@b.org''] True None
     = ([Print ''[DRY-RUN] Would send 2 message(s). No SMTP connection will be made.''],
        Inr ())
   \<and> \<not> sublist ''Skipped''
         ''[DRY-RUN] Would send 2 message(s). No SMTP connection will be made.''
   \<and> \<not> sublist ''dry-run''
         ''[DRY-RUN] Would send 2 message(s). No SMTP connection will be made.''"
  by code_simp

section \<open>Rendering comes before dispatch\<close>

lemma render_all_fails:
  assumes "(email, rec) \<in> set pairs" "render_template W (template_path cfg) rec = Inl e"
  shows "\<exists>e'. snd (render_all W cfg args pairs) = Inl e'
           \<and> (\<exists>p \<in> set pairs. render_template W (template_path cfg) (snd p) = Inl e')"
  using assms
proof (induction pairs)
  case Nil
  then show ?case by simp
next
  case (Cons p pairs)
  obtain a r where p: "p = (a, r)" by (cases p)
  show ?case
  proof (cases "render_template W (template_path cfg) r")
    case (Inl e1)
    then show ?thesis by (auto simp: p)
  next
    case (Inr html)
    with Cons.prems have "(email, rec) \<in> set pairs" by (auto simp: p)
    from Cons.IH [OF this Cons.prems(2)]
    obtain e' where e': "snd (render_all W cfg args pairs) = Inl e'"
      "\<exists>p \<in> set pairs. render_template W (template_path cfg) (snd p) = Inl e'"
      by blast
    obtain evs where "render_all W cfg args pairs = (evs, Inl e')"
      using e'(1) by (cases "render_all W cfg args pairs") simp
    with Inr e'(2) show ?thesis by (auto simp: p Let_def)
  qed
qed

text \<open>
  C4. With the configuration loaded, if rendering raises for the record of one of the
  pairs to send, \<open>main\<close> ends by raising the exception of the first rendering that
  failed, and the run has made no call on the SMTP session: nothing was opened and
  nothing sent. In test mode a rendering that raises ends the run the same way, before
  anything else happens.
\<close>

theorem render_error_aborts:
  assumes "from_env W = Inr cfg"
  shows "(nonempty (arg_test args) = None \<and> nonempty (arg_list args) = Some path
            \<and> path_exists W path \<and> load_json_records (read_json W) path = Inr records
            \<and> (email, rec) \<in> set (fst (extract_emails (validate_email W) records))
            \<and> render_template W (template_path cfg) rec = Inl e
          \<longrightarrow> (\<exists>e'. snd (main W args) = Raised e'
                  \<and> (\<exists>p \<in> set (fst (extract_emails (validate_email W) records)).
                        render_template W (template_path cfg) (snd p) = Inl e'))
              \<and> (\<forall>ev \<in> set (fst (main W args)). \<not> is_session ev))
       \<and> (nonempty (arg_test args) = Some email
            \<and> render_template W (template_path cfg) (test_context email) = Inl e
          \<longrightarrow> main W args = ([], Raised e))"
proof (intro conjI impI)
  assume a: "nonempty (arg_test args) = None \<and> nonempty (arg_list args) = Some path
            \<and> path_exists W path \<and> load_json_records (read_json W) path = Inr records
            \<and> (email, rec) \<in> set (fst (extract_emails (validate_email W) records))
            \<and> render_template W (template_path cfg) rec = Inl e"
  obtain pairs missing where ex: "extract_emails (validate_email W) records = (pairs, missing)"
    by (cases "extract_emails (validate_email W) records")
  with a have mem: "(email, rec) \<in> set pairs" by simp
  from a have r: "render_template W (template_path cfg) rec = Inl e" by simp
  from render_all_fails [OF mem r, of args]
  obtain e' where e': "snd (render_all W cfg args pairs) = Inl e'"
    "\<exists>p \<in> set pairs. render_template W (template_path cfg) (snd p) = Inl e'"
    by blast
  obtain evs where ra: "render_all W cfg args pairs = (evs, Inl e')"
    using e'(1) by (cases "render_all W cfg args pairs") simp
  have q: "\<And>ev. ev \<in> set evs \<Longrightarrow> \<not> is_session ev"
    using render_all_quiet [of _ W cfg args pairs] ra by simp
  have run: "main W args =
      ((if arg_verbose args
        then [Print (info_line (length records) (length pairs) (length missing))]
        else []) @ evs, Raised e')"
    using assms a ex ra by (simp add: main_def main_list_def)
  show "\<exists>e'. snd (main W args) = Raised e'
          \<and> (\<exists>p \<in> set (fst (extract_emails (validate_email W) records)).
                render_template W (template_path cfg) (snd p) = Inl e')"
    using run e'(2) ex by auto
  show "\<forall>ev \<in> set (fst (main W args)). \<not> is_session ev"
    using run q by (auto simp: is_session_def)
next
  assume "nonempty (arg_test args) = Some email
            \<and> render_template W (template_path cfg) (test_context email) = Inl e"
  with assms show "main W args = ([], Raised e)"
    by (simp add: main_def main_test_def)
qed

theorem render_error_aborts_witness:
  "from_env (broken_template_world (JArr (map JObj scenario))) = Inr example_config
   \<and> (''a@a.com'', recA)
        \<in> set (fst (extract_emails
                    (validate_email (broken_template_world (JArr (map JObj scenario))))
                    scenario))
   \<and> render_template (broken_template_world (JArr (map JObj scenario)))
        (template_path example_config) recA = Inl (TemplateError ''undefined variable'')
   \<and> main (broken_template_world (JArr (map JObj scenario))) list_args
        = ([], Raised (TemplateError ''undefined variable''))
   \<and> list_all (\<lambda>ev. \<not> is_session ev)
        (fst (main (broken_template_world (JArr (map JObj scenario))) list_args))
   \<and> nonempty (arg_test test_args) = Some ''someone@b.org''
   \<and> main (broken_template_world (JArr (map JObj scenario))) test_args
        = ([], Raised (TemplateError ''undefined variable''))"
proof -
  let ?W = "broken_template_world (JArr (map JObj scenario))"
  have c: "from_env ?W = Inr example_config"
    by (simp add: broken_template_world_def example_world_def)
  have t: "nonempty (arg_test list_args) = None" by (simp add: list_args_def nonempty_def)
  have l: "nonempty (arg_list list_args) = Some ''contacts.json''"
    by (simp add: list_args_def nonempty_def)
  have p: "path_exists ?W ''contacts.json''"
    by (simp add: broken_template_world_def example_world_def)
  have j: "load_json_records (read_json ?W) ''contacts.json'' = Inr scenario"
    by code_simp
  have m: "(''a@a.com'', recA) \<in> set (fst (extract_emails (validate_email ?W) scenario))"
    by code_simp
  have r: "render_template ?W (template_path example_config) recA
             = Inl (TemplateError ''undefined variable'')"
    by (simp add: broken_template_world_def example_world_def)
  have v: "main ?W list_args = ([], Raised (TemplateError ''undefined variable''))"
    by code_simp
  from render_error_aborts [OF c, of list_args "''contacts.json''" scenario "''a@a.com''" recA
         "TemplateError ''undefined variable''"] t l p j m r
  have q: "\<forall>ev \<in> set (fst (main ?W list_args)). \<not> is_session ev"
    by blast
  have t': "nonempty (arg_test test_args) = Some ''someone@b.org''"
    by (simp add: test_args_def list_args_def nonempty_def)
  have r': "render_template ?W (template_path example_config) (test_context ''someone@b.org'')
             = Inl (TemplateError ''undefined variable'')"
    by (simp add: broken_template_world_def example_world_def)
  from render_error_aborts [OF c, of test_args _ _ "''someone@b.org''" _
         "TemplateError ''undefined variable''"] t' r'
  have v': "main ?W test_args = ([], Raised (TemplateError ''undefined variable''))"
    by blast
  from c m r v q t' v' show ?thesis by (simp add: list_all_iff)
qed

end
